theory Spec2Isabelle
  imports Complex_Main "HOL-Library.Sublist"
begin

section \<open>Python values and exceptions\<close>

text \<open>
  The exceptions that the modelled code can raise.  None of them is caught by
  \<open>generate_time_steps\<close>, \<open>collect_satellite_data\<close> or \<open>main\<close>, so each one ends the
  function that raised it and every caller above it.
\<close>

datatype error = ZeroDivisionError | OverflowError | IndexError | PropagationError

text \<open>
  A naive \<open>datetime\<close> is modelled by the number of microseconds elapsed since
  \<open>datetime.min\<close> = 0001-01-01T00:00:00, the total order that Python's own datetime
  arithmetic uses (proleptic Gregorian calendar, days of 86400 seconds).
  \<open>datetime.max\<close> is 9999-12-31T23:59:59.999999.
\<close>

type_synonym datetime = int

definition datetime_max :: datetime where
  "datetime_max = 315537897599999999"

definition us_per_minute :: int where
  "us_per_minute = 60000000"

definition us_per_day :: int where
  "us_per_day = 86400000000"

text \<open>
  \<open>timedelta(days=d, minutes=m)\<close>: the duration in microseconds; Python raises
  OverflowError when the normalised day count has magnitude above 999999999.
\<close>

definition timedelta :: "int \<Rightarrow> int \<Rightarrow> error + int" where
  "timedelta days minutes =
     (let us = days * us_per_day + minutes * us_per_minute;
          d = us div us_per_day
      in if d < - 999999999 \<or> 999999999 < d then Inl OverflowError else Inr us)"

text \<open>\<open>dt + delta\<close>: OverflowError when the sum leaves the datetime range.\<close>

definition datetime_add :: "datetime \<Rightarrow> int \<Rightarrow> error + datetime" where
  "datetime_add dt delta =
     (let r = dt + delta
      in if r < 0 \<or> datetime_max < r then Inl OverflowError else Inr r)"

text \<open>
  The calendar fields of a datetime.  The triple (\<open>dt.year\<close>, \<open>dt.month\<close>, \<open>dt.day\<close>) is
  represented by the proleptic Gregorian ordinal of that date (\<open>dt.toordinal()\<close>, day 1
  is 0001-01-01), with which it is in bijection.
\<close>

definition toordinal :: "datetime \<Rightarrow> int" where
  "toordinal dt = dt div us_per_day + 1"

definition hour :: "datetime \<Rightarrow> int" where
  "hour dt = (dt div 3600000000) mod 24"

definition minute :: "datetime \<Rightarrow> int" where
  "minute dt = (dt div us_per_minute) mod 60"

definition second :: "datetime \<Rightarrow> int" where
  "second dt = (dt div 1000000) mod 60"

text \<open>
  \<open>datetime(year, month, day, hour, minute, second, microsecond)\<close> with the date given
  by its ordinal: used to write down concrete instants.
\<close>

definition mk_datetime :: "int \<Rightarrow> int \<Rightarrow> int \<Rightarrow> int \<Rightarrow> int \<Rightarrow> datetime" where
  "mk_datetime ordinal h mi s us =
     (ordinal - 1) * us_per_day + h * 3600000000 + mi * us_per_minute + s * 1000000 + us"

text \<open>
  Skyfield's \<open>ts.utc(year, month, day, hour, minute, second)\<close> with integer arguments:
  the UTC instant so named, counted in whole seconds since 0001-01-01T00:00:00 on the
  same uniform scale as the datetimes.  The fields need not be normalised
  (\<open>minute\<close> may exceed 59: Skyfield adds the fields up), \<open>second\<close> defaults to 0.
  Floating-point rounding and the leap-second table of the library are not modelled.
\<close>

type_synonym skytime = int

definition ts_utc :: "int \<Rightarrow> int \<Rightarrow> int \<Rightarrow> int \<Rightarrow> skytime" where
  "ts_utc ordinal h mi s = (ordinal - 1) * 86400 + h * 3600 + mi * 60 + s"

text \<open>
  \<open>int(a / b)\<close> for Python integers: true division raises ZeroDivisionError on
  \<open>b = 0\<close>, and \<open>int\<close> truncates the quotient towards zero.  For the magnitudes that
  pass the \<open>timedelta\<close> check before it (\<open>|a| \<le> 999999999 * 1440 < 2^53\<close>) the rounding
  of the float quotient never reaches the next integer, so the result is the exact
  truncated quotient.
\<close>

definition int_truediv :: "int \<Rightarrow> int \<Rightarrow> error + int" where
  "int_truediv a b =
     (if b = 0 then Inl ZeroDivisionError
      else Inr (sgn a * sgn b * (\<bar>a\<bar> div \<bar>b\<bar>)))"

text \<open>\<open>np.arange(n)\<close>: the integers \<open>0, ..., n - 1\<close>, empty when \<open>n \<le> 0\<close>.\<close>

definition arange :: "int \<Rightarrow> int list" where
  "arange n = map int [0..<nat n]"

text \<open>
  A list comprehension whose element expression can raise: the first exception ends
  the comprehension.
\<close>

fun try_map :: "('a \<Rightarrow> error + 'b) \<Rightarrow> 'a list \<Rightarrow> error + 'b list" where
  "try_map f [] = Inr []"
| "try_map f (x # xs) =
     (case f x of
        Inl e \<Rightarrow> Inl e
      | Inr y \<Rightarrow> (case try_map f xs of Inl e \<Rightarrow> Inl e | Inr ys \<Rightarrow> Inr (y # ys)))"

section \<open>Time grid construction\<close>

text \<open>
  \<open>generate_time_steps\<close> of \<open>show_all.py\<close>.  It returns the pair
  (\<open>times\<close>, \<open>times_datetime\<close>): the Skyfield times built from the fields
  year, month, day, hour, minute and second of each datetime (the microsecond field is
  not passed on), and the datetimes themselves.  Whenever more than one offset is
  built, the offsets \<open>step_minutes * k\<close> lie between 0 and \<open>days * 24 * 60\<close>, so NumPy's
  64-bit integers hold them exactly; the model computes them as integers.
\<close>

definition add_minutes :: "datetime \<Rightarrow> int \<Rightarrow> error + datetime" where
  "add_minutes start_time m =
     (case timedelta 0 m of Inl e \<Rightarrow> Inl e | Inr d \<Rightarrow> datetime_add start_time d)"

definition utc_of_datetime :: "datetime \<Rightarrow> skytime" where
  "utc_of_datetime dt = ts_utc (toordinal dt) (hour dt) (minute dt) (second dt)"

definition generate_time_steps ::
  "datetime \<Rightarrow> int \<Rightarrow> int \<Rightarrow> error + (skytime list \<times> datetime list)" where
  "generate_time_steps start_time days step_minutes =
     (case timedelta days 0 of Inl e \<Rightarrow> Inl e | Inr d \<Rightarrow>
      case datetime_add start_time d of Inl e \<Rightarrow> Inl e | Inr end_time \<Rightarrow>
      case int_truediv (days * 24 * 60) step_minutes of Inl e \<Rightarrow> Inl e | Inr q \<Rightarrow>
        let total_steps = q + 1;
            minutes_array = map (\<lambda>k. step_minutes * k) (arange total_steps)
        in case try_map (add_minutes start_time) minutes_array of
             Inl e \<Rightarrow> Inl e
           | Inr times_datetime \<Rightarrow>
               Inr (map utc_of_datetime times_datetime, times_datetime))"

text \<open>
  \<open>generate_time_steps\<close> of \<open>show_satellites_trajectories.py\<close>.  It returns Skyfield
  times only, built from the fields year, month, day, hour of \<open>start_time\<close> and the
  minute field plus the offsets; no second is passed to \<open>ts.utc\<close>.
\<close>

definition generate_time_steps_trajectories ::
  "datetime \<Rightarrow> int \<Rightarrow> int \<Rightarrow> error + skytime list" where
  "generate_time_steps_trajectories start_time days step_minutes =
     (case timedelta days 0 of Inl e \<Rightarrow> Inl e | Inr d \<Rightarrow>
      case datetime_add start_time d of Inl e \<Rightarrow> Inl e | Inr end_time \<Rightarrow>
      case int_truediv (days * 24 * 60) step_minutes of Inl e \<Rightarrow> Inl e | Inr q \<Rightarrow>
        let total_steps = q + 1
        in Inr (map (\<lambda>k. ts_utc (toordinal start_time) (hour start_time)
                              (minute start_time + step_minutes * k) 0)
                    (arange total_steps)))"

section \<open>Configuration\<close>

text \<open>
  The values of \<open>config.py\<close> that the pipeline reads.  The functions below take the
  configuration as an argument; \<open>config_py\<close> holds the values of the file.  NORAD
  identifiers are natural numbers.
\<close>

record config =
  SATELLITE_IDS :: "nat list"
  PREDICTION_DAYS :: int
  TIME_STEP_MINUTES :: int
  MAX_ALTITUDE_KM :: real

definition config_py :: config where
  "config_py = \<lparr> SATELLITE_IDS = [59625, 60453, 59626, 60452, 40115],
                 PREDICTION_DAYS = 10,
                 TIME_STEP_MINUTES = 10,
                 MAX_ALTITUDE_KM = 800 \<rparr>"

section \<open>Element set intake\<close>

text \<open>\<open>str(sat_id)\<close>: the decimal numeral of a natural number.\<close>

definition digit :: "nat \<Rightarrow> char" where
  "digit d = ''0123456789'' ! d"

fun str :: "nat \<Rightarrow> string" where
  "str n = (if n < 10 then [digit n] else str (n div 10) @ [digit (n mod 10)])"

declare str.simps [simp del]

text \<open>
  \<open>s.splitlines()\<close> for the line boundaries LF, CR and CR LF (the other boundaries
  that Python recognises do not occur in element sets).  The accumulator holds the
  characters of the line being read.
\<close>

fun splitlines_from :: "string \<Rightarrow> string \<Rightarrow> string list" where
  "splitlines_from cur [] = (if cur = [] then [] else [cur])"
| "splitlines_from cur (c # cs) =
     (if c = CHR 0x0A then cur # splitlines_from [] cs
      else if c = CHR 0x0D then
        (case cs of
           [] \<Rightarrow> [cur]
         | d # ds \<Rightarrow> if d = CHR 0x0A then cur # splitlines_from [] ds
                     else cur # splitlines_from [] cs)
      else splitlines_from (cur @ [c]) cs)"

definition splitlines :: "string \<Rightarrow> string list" where
  "splitlines s = splitlines_from [] s"

text \<open>
  What \<open>requests.get\<close>, \<open>raise_for_status\<close> and \<open>response.json()\<close> deliver for one
  identifier: an exception (any one: \<open>fetch_tle\<close> catches them all), a document
  without the key \<open>'tle'\<close>, or a document whose \<open>'tle'\<close> entry is the given string.
  During one run the service is a function of the identifier.
\<close>

datatype response = RequestFailed | NoTle | Tle string

text \<open>
  \<open>fetch_tle\<close> of \<open>show_all.py\<close>.  Every return of the function is either the triple
  (\<open>str(sat_id)\<close>, first line, second line) or \<open>(None, None, None)\<close>; the latter is
  \<open>None\<close> here.
\<close>

definition fetch_tle :: "(nat \<Rightarrow> response) \<Rightarrow> nat \<Rightarrow> (string \<times> string \<times> string) option" where
  "fetch_tle http_get sat_id =
     (case http_get sat_id of
        RequestFailed \<Rightarrow> None
      | NoTle \<Rightarrow> None
      | Tle s \<Rightarrow>
          if s \<noteq> [] then
            (let tle_lines = splitlines s
             in if 2 \<le> length tle_lines
                then Some (str sat_id, tle_lines ! 0, tle_lines ! 1)
                else None)
          else None)"

text \<open>An \<open>EarthSatellite\<close> object: its name and the two element lines.\<close>

record satellite =
  name :: string
  line1 :: string
  line2 :: string

text \<open>
  What \<open>main\<close> prints about each configured identifier, preceded by the request that
  \<open>fetch_tle\<close> makes for it.
\<close>

datatype event = Request nat | Fetched string nat | Skipping nat

text \<open>
  The intake loop of \<open>main\<close>: an identifier is admitted when both lines are truthy
  (\<open>if line1 and line2\<close>), otherwise it is skipped with a message.
\<close>

fun fetch_satellites :: "(nat \<Rightarrow> response) \<Rightarrow> nat list \<Rightarrow> event list \<times> satellite list" where
  "fetch_satellites http_get [] = ([], [])"
| "fetch_satellites http_get (sat_id # ids) =
     (let (messages, satellites) = fetch_satellites http_get ids
      in case fetch_tle http_get sat_id of
           None \<Rightarrow> (Request sat_id # Skipping sat_id # messages, satellites)
         | Some (nm, l1, l2) \<Rightarrow>
             if l1 \<noteq> [] \<and> l2 \<noteq> []
             then (Request sat_id # Fetched nm sat_id # messages,
                   \<lparr> name = nm, line1 = l1, line2 = l2 \<rparr> # satellites)
             else (Request sat_id # Skipping sat_id # messages, satellites))"

section \<open>Trajectory collection and altitude filter\<close>

text \<open>
  The geodetic subpoint of a satellite at one instant, as Skyfield reports it:
  latitude and longitude in degrees, elevation in metres and in kilometres.
  Floating-point numbers are modelled by real numbers.
\<close>

record subpoint =
  latitude_degrees :: real
  longitude_degrees :: real
  elevation_in_m :: real
  elevation_in_km :: real

text \<open>
  The propagator (\<open>sat.at(times).subpoint()\<close>) is an external collaborator: a pure
  function that gives, for an element set, either nothing (the library raises, for
  instance on malformed lines) or the subpoint at every instant.  One vectorised call
  evaluates all instants of the grid.  The library may reject a malformed element set
  already when \<open>main\<close> builds the \<open>EarthSatellite\<close>; \<open>main\<close> guards that call no more
  than the propagation, and the model raises at the propagation.
\<close>

type_synonym propagator = "satellite \<Rightarrow> (skytime \<Rightarrow> subpoint) option"

definition subpoints :: "propagator \<Rightarrow> satellite \<Rightarrow> skytime list \<Rightarrow> error + subpoint list" where
  "subpoints prop sat times_utc =
     (case prop sat of
        None \<Rightarrow> Inl PropagationError
      | Some f \<Rightarrow> Inr (map f times_utc))"

text \<open>
  One entry of the result dictionary: five parallel sequences, stored under the keys
  \<open>'latitude'\<close>, \<open>'longitude'\<close>, \<open>'elevation_m'\<close>, \<open>'altitude_km'\<close> and \<open>'times'\<close>.
\<close>

record entry =
  latitude :: "real list"
  longitude :: "real list"
  elevation_m :: "real list"
  altitude_km :: "real list"
  times_entry :: "datetime list"

text \<open>The positions at which a boolean mask holds, in increasing order.\<close>

definition mask_indices :: "bool list \<Rightarrow> nat list" where
  "mask_indices mask_arr = filter (\<lambda>i. mask_arr ! i) [0..<length mask_arr]"

text \<open>
  \<open>xs[mask]\<close> on a NumPy array: the elements at the positions where the mask holds;
  IndexError when mask and array differ in length.
\<close>

definition boolean_index :: "'a list \<Rightarrow> bool list \<Rightarrow> error + 'a list" where
  "boolean_index xs mask_arr =
     (if length mask_arr \<noteq> length xs then Inl IndexError
      else Inr (map (\<lambda>i. xs ! i) (mask_indices mask_arr)))"

text \<open>
  \<open>[times_datetime[i] for i, m in enumerate(mask) if m]\<close>: IndexError when a selected
  position lies beyond the end of the list.
\<close>

definition filtered_times :: "datetime list \<Rightarrow> bool list \<Rightarrow> error + datetime list" where
  "filtered_times times_datetime mask_arr =
     try_map (\<lambda>i. if i < length times_datetime then Inr (times_datetime ! i) else Inl IndexError)
       (mask_indices mask_arr)"

text \<open>
  The filtering branch of the loop body (the lines under \<open>if filter_altitude\<close>), as a
  function of the five sequences it reads: the mask is \<open>alt_km <= MAX_ALTITUDE_KM\<close>;
  when it holds nowhere the satellite gets no entry (\<open>None\<close>), otherwise every
  sequence is cut down by the same mask.
\<close>

definition altitude_filter :: "real \<Rightarrow> entry \<Rightarrow> error + entry option" where
  "altitude_filter max_altitude_km e =
     (let mask_arr = map (\<lambda>a. a \<le> max_altitude_km) (altitude_km e)
      in if list_ex (\<lambda>m. m) mask_arr then
           (case filtered_times (times_entry e) mask_arr of Inl x \<Rightarrow> Inl x | Inr ft \<Rightarrow>
            case boolean_index (latitude e) mask_arr of Inl x \<Rightarrow> Inl x | Inr la \<Rightarrow>
            case boolean_index (longitude e) mask_arr of Inl x \<Rightarrow> Inl x | Inr lo \<Rightarrow>
            case boolean_index (elevation_m e) mask_arr of Inl x \<Rightarrow> Inl x | Inr el \<Rightarrow>
            case boolean_index (altitude_km e) mask_arr of Inl x \<Rightarrow> Inl x | Inr al \<Rightarrow>
              Inr (Some \<lparr> latitude = la, longitude = lo, elevation_m = el,
                          altitude_km = al, times_entry = ft \<rparr>))
         else Inr None)"

text \<open>
  The sequences that the loop body reads off the propagator's answer, with all the
  times: this is the entry stored when \<open>filter_altitude\<close> is false.
\<close>

definition unfiltered_entry :: "subpoint list \<Rightarrow> datetime list \<Rightarrow> entry" where
  "unfiltered_entry sub times_datetime =
     \<lparr> latitude = map latitude_degrees sub,
       longitude = map longitude_degrees sub,
       elevation_m = map elevation_in_m sub,
       altitude_km = map elevation_in_km sub,
       times_entry = times_datetime \<rparr>"

text \<open>
  The body of the loop of \<open>collect_satellite_data\<close> for one satellite: the entry to
  store under the satellite's name, if any.
\<close>

definition collect_satellite ::
  "propagator \<Rightarrow> real \<Rightarrow> skytime list \<Rightarrow> datetime list \<Rightarrow> bool \<Rightarrow> satellite
     \<Rightarrow> error + entry option" where
  "collect_satellite prop max_altitude_km times_utc times_datetime filter_altitude sat =
     (case subpoints prop sat times_utc of
        Inl x \<Rightarrow> Inl x
      | Inr sub \<Rightarrow>
          if filter_altitude
          then altitude_filter max_altitude_km (unfiltered_entry sub times_datetime)
          else Inr (Some (unfiltered_entry sub times_datetime)))"

text \<open>
  The loop of \<open>collect_satellite_data\<close>.  The dictionary \<open>data\<close> is a map from names to
  entries; an exception of the propagator is not caught and ends the loop.
\<close>

fun collect_loop ::
  "propagator \<Rightarrow> real \<Rightarrow> skytime list \<Rightarrow> datetime list \<Rightarrow> bool
     \<Rightarrow> (string \<rightharpoonup> entry) \<Rightarrow> satellite list \<Rightarrow> error + (string \<rightharpoonup> entry)" where
  "collect_loop prop mx times_utc times_datetime filter_altitude data [] = Inr data"
| "collect_loop prop mx times_utc times_datetime filter_altitude data (sat # satellites) =
     (case collect_satellite prop mx times_utc times_datetime filter_altitude sat of
        Inl x \<Rightarrow> Inl x
      | Inr None \<Rightarrow>
          collect_loop prop mx times_utc times_datetime filter_altitude data satellites
      | Inr (Some e) \<Rightarrow>
          collect_loop prop mx times_utc times_datetime filter_altitude
            (data(name sat \<mapsto> e)) satellites)"

definition collect_satellite_data ::
  "propagator \<Rightarrow> real \<Rightarrow> satellite list \<Rightarrow> skytime list \<Rightarrow> datetime list \<Rightarrow> bool
     \<Rightarrow> error + (string \<rightharpoonup> entry)" where
  "collect_satellite_data prop mx satellites times_utc times_datetime filter_altitude =
     collect_loop prop mx times_utc times_datetime filter_altitude Map.empty satellites"

section \<open>The run\<close>

text \<open>
  \<open>main\<close> of \<open>show_all.py\<close>, as a function of the start time (\<open>datetime.utcnow()\<close>),
  the configuration and the two collaborators.  It yields the messages of the intake
  loop and either the exception that ended the run or its outcome: the early return
  for want of satellites, or the two dictionaries handed to the plotting functions.
\<close>

datatype outcome =
    NoSatellitesToTrack
  | Plotted (filtered_satellite_data: "string \<rightharpoonup> entry") (all_satellite_data: "string \<rightharpoonup> entry")

definition main ::
  "(nat \<Rightarrow> response) \<Rightarrow> propagator \<Rightarrow> config \<Rightarrow> datetime \<Rightarrow> event list \<times> (error + outcome)" where
  "main http_get prop cfg start_time =
     (case generate_time_steps start_time (PREDICTION_DAYS cfg) (TIME_STEP_MINUTES cfg) of
        Inl x \<Rightarrow> ([], Inl x)
      | Inr (times_utc, times_datetime) \<Rightarrow>
          (let (messages, satellites) = fetch_satellites http_get (SATELLITE_IDS cfg)
           in if satellites = [] then (messages, Inr NoSatellitesToTrack)
              else
                (case collect_satellite_data prop (MAX_ALTITUDE_KM cfg) satellites
                        times_utc times_datetime True of
                   Inl x \<Rightarrow> (messages, Inl x)
                 | Inr filtered \<Rightarrow>
                     (case collect_satellite_data prop (MAX_ALTITUDE_KM cfg) satellites
                             times_utc times_datetime False of
                        Inl x \<Rightarrow> (messages, Inl x)
                      | Inr unfiltered \<Rightarrow> (messages, Inr (Plotted filtered unfiltered))))))"

section \<open>Notions used to state the claims\<close>

text \<open>
  A position sample is one row across the five sequences of an entry: latitude,
  longitude, elevation in metres, altitude in kilometres and instant.  \<open>samples\<close> reads
  an entry row by row.
\<close>

type_synonym sample = "real \<times> real \<times> real \<times> real \<times> datetime"

definition samples :: "entry \<Rightarrow> sample list" where
  "samples e =
     zip (latitude e) (zip (longitude e) (zip (elevation_m e)
       (zip (altitude_km e) (times_entry e))))"

definition sample_altitude :: "sample \<Rightarrow> real" where
  "sample_altitude s = fst (snd (snd (snd s)))"

text \<open>An entry is aligned when its five sequences have one length.\<close>

definition aligned :: "entry \<Rightarrow> bool" where
  "aligned e \<longleftrightarrow>
     length (latitude e) = length (altitude_km e) \<and>
     length (longitude e) = length (altitude_km e) \<and>
     length (elevation_m e) = length (altitude_km e) \<and>
     length (times_entry e) = length (altitude_km e)"

text \<open>The entry that holds, of every sequence, the values at the given positions.\<close>

definition select :: "nat list \<Rightarrow> entry \<Rightarrow> entry" where
  "select idx e =
     \<lparr> latitude = map (\<lambda>i. latitude e ! i) idx,
       longitude = map (\<lambda>i. longitude e ! i) idx,
       elevation_m = map (\<lambda>i. elevation_m e ! i) idx,
       altitude_km = map (\<lambda>i. altitude_km e ! i) idx,
       times_entry = map (\<lambda>i. times_entry e ! i) idx \<rparr>"

text \<open>The positions of an entry whose altitude is at or below the threshold.\<close>

definition low_indices :: "real \<Rightarrow> entry \<Rightarrow> nat list" where
  "low_indices mx e = filter (\<lambda>i. altitude_km e ! i \<le> mx) [0..<length (altitude_km e)]"



section \<open>An example run\<close>

text \<open>
  Concrete collaborators, used to evaluate the model.  The element-set service
  answers every identifier with two lines, except that the request for 60453 fails
  and the document for 60452 has no element set.  The propagator puts every satellite
  at an altitude that depends on the time of day: \<open>base\<close> km at midnight and
  \<open>base + 432\<close> km at noon, with \<open>base\<close> 500 for 59625, 900 for 59626 and 300 for any
  other satellite.  The failing propagator raises for 59626; the unreachable service
  fails every request.  The run starts at
  2024-01-01T00:00:00 and covers one day in steps of 720 minutes.
\<close>

definition example_tle :: "nat \<Rightarrow> string" where
  "example_tle sat_id = ''1 '' @ str sat_id @ [CHR 0x0D, CHR 0x0A] @ ''2 '' @ str sat_id"

definition example_http_get :: "nat \<Rightarrow> response" where
  "example_http_get sat_id =
     (if sat_id = 60453 then RequestFailed
      else if sat_id = 60452 then NoTle
      else Tle (example_tle sat_id))"


definition example_track :: "real \<Rightarrow> skytime \<Rightarrow> subpoint" where
  "example_track base t =
     \<lparr> latitude_degrees = 0,
       longitude_degrees = of_int (t mod 86400) / 240,
       elevation_in_m = 1000 * (base + of_int (t mod 86400) / 100),
       elevation_in_km = base + of_int (t mod 86400) / 100 \<rparr>"

definition example_propagator :: propagator where
  "example_propagator sat =
     (if name sat = ''59625'' then Some (example_track 500)
      else if name sat = ''59626'' then Some (example_track 900)
      else Some (example_track 300))"


definition example_config :: config where
  "example_config = config_py \<lparr> PREDICTION_DAYS := 1, TIME_STEP_MINUTES := 720 \<rparr>"

definition example_start :: datetime where
  "example_start = mk_datetime 738886 0 0 0 0"

text \<open>
  The grid of the example run (midnight, noon, midnight) and the satellites that its
  intake admits.
\<close>

definition example_times_utc :: "skytime list" where
  "example_times_utc = [63839664000, 63839707200, 63839750400]"

definition example_times_datetime :: "datetime list" where
  "example_times_datetime = [63839664000000000, 63839707200000000, 63839750400000000]"

definition example_satellites :: "satellite list" where
  "example_satellites =
     [\<lparr> name = ''59625'', line1 = ''1 59625'', line2 = ''2 59625'' \<rparr>,
      \<lparr> name = ''59626'', line1 = ''1 59626'', line2 = ''2 59626'' \<rparr>,
      \<lparr> name = ''40115'', line1 = ''1 40115'', line2 = ''2 40115'' \<rparr>]"

definition example_messages :: "event list" where
  "example_messages =
     [Request 59625, Fetched ''59625'' 59625, Request 60453, Skipping 60453,
      Request 59626, Fetched ''59626'' 59626, Request 60452, Skipping 60452,
      Request 40115, Fetched ''40115'' 40115]"

definition example_filtered_data :: "string \<rightharpoonup> entry" where
  "example_filtered_data =
     [''59625'' \<mapsto> \<lparr> latitude = [0, 0], longitude = [0, 0],
                       elevation_m = [500000, 500000], altitude_km = [500, 500],
                       times_entry = [63839664000000000, 63839750400000000] \<rparr>,
      ''40115'' \<mapsto> \<lparr> latitude = [0, 0, 0], longitude = [0, 180, 0],
                       elevation_m = [300000, 732000, 300000],
                       altitude_km = [300, 732, 300],
                       times_entry = [63839664000000000, 63839707200000000,
                                      63839750400000000] \<rparr>]"

definition example_all_data :: "string \<rightharpoonup> entry" where
  "example_all_data =
     [''59625'' \<mapsto> \<lparr> latitude = [0, 0, 0], longitude = [0, 180, 0],
                       elevation_m = [500000, 932000, 500000],
                       altitude_km = [500, 932, 500],
                       times_entry = [63839664000000000, 63839707200000000,
                                      63839750400000000] \<rparr>,
      ''59626'' \<mapsto> \<lparr> latitude = [0, 0, 0], longitude = [0, 180, 0],
                       elevation_m = [900000, 1332000, 900000],
                       altitude_km = [900, 1332, 900],
                       times_entry = [63839664000000000, 63839707200000000,
                                      63839750400000000] \<rparr>,
      ''40115'' \<mapsto> \<lparr> latitude = [0, 0, 0], longitude = [0, 180, 0],
                       elevation_m = [300000, 732000, 300000],
                       altitude_km = [300, 732, 300],
                       times_entry = [63839664000000000, 63839707200000000,
                                      63839750400000000] \<rparr>]"

section \<open>Facts about the time grid\<close>

lemma try_map_Inr:
  "(\<And>x. x \<in> set xs \<Longrightarrow> f x = Inr (g x)) \<Longrightarrow> try_map f xs = Inr (map g xs)"
  by (induction xs) simp_all

lemma int_truediv_pos:
  "0 \<le> a \<Longrightarrow> 0 < b \<Longrightarrow> int_truediv a b = Inr (a div b)"
  by (cases "a = 0") (simp_all add: int_truediv_def)

lemma timedelta_days_ok:
  "\<bar>days\<bar> \<le> 999999999 \<Longrightarrow> timedelta days 0 = Inr (days * us_per_day)"
  by (auto simp add: timedelta_def us_per_day_def Let_def)

lemma seconds_fields:
  fixes s :: int
  shows "s div 86400 * 86400 + s div 3600 mod 24 * 3600 + s div 60 mod 60 * 60 + s mod 60 = s"
proof -
  define a where "a = s div 60"
  define b where "b = a div 60"
  have b3600: "s div 3600 = b"
    unfolding b_def a_def using zdiv_zmult2_eq[of 60 s 60] by simp
  have b86400: "s div 86400 = b div 24"
    unfolding b3600[symmetric] using zdiv_zmult2_eq[of 24 s 3600] by simp
  have 1: "s = 60 * a + s mod 60" unfolding a_def by simp
  have 2: "a = 60 * b + a mod 60" unfolding b_def by simp
  have 3: "b = 24 * (b div 24) + b mod 24" by simp
  have "b div 24 * 86400 + b mod 24 * 3600 + a mod 60 * 60 + s mod 60 = s"
    using 1 2 3 by linarith
  then show ?thesis
    unfolding b86400 b3600 a_def[symmetric] .
qed

lemma utc_of_datetime_seconds: "utc_of_datetime dt = dt div 1000000"
proof -
  have d1: "dt div 86400000000 = dt div 1000000 div 86400"
    using zdiv_zmult2_eq[of 86400 dt 1000000] by simp
  have d2: "dt div 3600000000 = dt div 1000000 div 3600"
    using zdiv_zmult2_eq[of 3600 dt 1000000] by simp
  have d3: "dt div 60000000 = dt div 1000000 div 60"
    using zdiv_zmult2_eq[of 60 dt 1000000] by simp
  show ?thesis
    unfolding utc_of_datetime_def ts_utc_def toordinal_def hour_def minute_def second_def
      us_per_day_def us_per_minute_def d1 d2 d3
    using seconds_fields[of "dt div 1000000"] by simp
qed

lemma add_minutes_in_range:
  assumes "0 \<le> start_time" "start_time \<le> datetime_max"
    and "0 \<le> start_time + m * us_per_minute" "start_time + m * us_per_minute \<le> datetime_max"
  shows "add_minutes start_time m = Inr (start_time + m * us_per_minute)"
proof -
  have up: "m * us_per_minute \<le> datetime_max" and lo: "- datetime_max \<le> m * us_per_minute"
    using assms by simp_all
  have "m * us_per_minute div us_per_day \<le> datetime_max div us_per_day"
    using up by (intro zdiv_mono1) (simp_all add: us_per_day_def)
  moreover have "(- datetime_max) div us_per_day \<le> m * us_per_minute div us_per_day"
    using lo by (intro zdiv_mono1) (simp_all add: us_per_day_def)
  ultimately have "timedelta 0 m = Inr (m * us_per_minute)"
    by (auto simp add: timedelta_def Let_def datetime_max_def us_per_day_def)
  then show ?thesis
    using assms by (auto simp add: add_minutes_def datetime_add_def Let_def)
qed



lemma set_arange: "set (arange n) = {0..<n}"
proof -
  have "int ` {0..<nat n} = {0..<n}"
    by (cases "0 \<le> n") (simp_all add: image_int_atLeastLessThan)
  then show ?thesis by (simp add: arange_def)
qed

lemma offsets_within_window:
  fixes a b k :: int
  assumes "b \<noteq> 0" "0 \<le> k" "k < sgn a * sgn b * (\<bar>a\<bar> div \<bar>b\<bar>) + 1"
  shows "(0 \<le> b * k \<and> b * k \<le> a) \<or> (a \<le> b * k \<and> b * k \<le> 0)"
proof (cases "k = 0")
  case True
  then show ?thesis by (cases "0 \<le> a") simp_all
next
  case False
  then have k1: "1 \<le> k" using assms by simp
  then have q1: "1 \<le> sgn a * sgn b * (\<bar>a\<bar> div \<bar>b\<bar>)" using assms by simp
  have dnn: "0 \<le> \<bar>a\<bar> div \<bar>b\<bar>"
    using assms(1) by (simp add: pos_imp_zdiv_nonneg_iff)
  have same: "sgn a * sgn b = 1"
  proof (rule ccontr)
    assume "sgn a * sgn b \<noteq> 1"
    moreover have "sgn a * sgn b \<in> {-1, 0, 1}"
      by (auto simp add: sgn_if)
    ultimately have "sgn a * sgn b * (\<bar>a\<bar> div \<bar>b\<bar>) \<le> 0"
      using dnn by auto
    then show False using q1 by simp
  qed
  then have kq: "k \<le> \<bar>a\<bar> div \<bar>b\<bar>" using assms by simp
  have "\<bar>b\<bar> * k \<le> \<bar>b\<bar> * (\<bar>a\<bar> div \<bar>b\<bar>)"
    using kq by (simp add: mult_left_mono)
  also have "\<dots> \<le> \<bar>a\<bar>"
    using mult_div_mod_eq[of "\<bar>b\<bar>" "\<bar>a\<bar>"] pos_mod_sign[of "\<bar>b\<bar>" "\<bar>a\<bar>"] assms(1)
    by linarith
  finally have bound: "\<bar>b\<bar> * k \<le> \<bar>a\<bar>" .
  from same consider "0 < a \<and> 0 < b" | "a < 0 \<and> b < 0"
    by (auto simp add: sgn_if split: if_splits)
  then show ?thesis
  proof cases
    case 1
    then show ?thesis using bound k1 by simp
  next
    case 2
    then have "- b * k \<le> - a" using bound by simp
    moreover have "b * k \<le> 0" using 2 k1 by (simp add: mult_le_0_iff)
    ultimately show ?thesis by simp
  qed
qed

lemma generate_time_steps_result:
  assumes "0 \<le> start_time" "start_time \<le> datetime_max"
    and "0 \<le> start_time + days * us_per_day" "start_time + days * us_per_day \<le> datetime_max"
    and "step_minutes \<noteq> 0"
  shows "generate_time_steps start_time days step_minutes =
           Inr (map (\<lambda>k. (start_time + step_minutes * k * us_per_minute) div 1000000)
                    (arange (sgn (days * 24 * 60) * sgn step_minutes
                               * (\<bar>days * 24 * 60\<bar> div \<bar>step_minutes\<bar>) + 1)),
                map (\<lambda>k. start_time + step_minutes * k * us_per_minute)
                    (arange (sgn (days * 24 * 60) * sgn step_minutes
                               * (\<bar>days * 24 * 60\<bar> div \<bar>step_minutes\<bar>) + 1)))"
proof -
  let ?q = "sgn (days * 24 * 60) * sgn step_minutes * (\<bar>days * 24 * 60\<bar> div \<bar>step_minutes\<bar>)"
  have "days * us_per_day \<le> datetime_max" "- datetime_max \<le> days * us_per_day"
    using assms by simp_all
  then have dlim: "\<bar>days\<bar> \<le> 999999999"
    by (simp add: us_per_day_def datetime_max_def)
  have 1: "timedelta days 0 = Inr (days * us_per_day)"
    by (rule timedelta_days_ok[OF dlim])
  have 2: "datetime_add start_time (days * us_per_day) = Inr (start_time + days * us_per_day)"
    using assms by (auto simp add: datetime_add_def Let_def)
  have 3: "int_truediv (days * 24 * 60) step_minutes = Inr ?q"
    using assms by (simp add: int_truediv_def)
  have each: "add_minutes start_time m = Inr (start_time + m * us_per_minute)"
    if "m \<in> set (map (\<lambda>k. step_minutes * k) (arange (?q + 1)))" for m
  proof -
    from that obtain k where k: "0 \<le> k" "k < ?q + 1" and m: "m = step_minutes * k"
      by (auto simp add: set_arange)
    from offsets_within_window[OF assms(5) k]
    have "(0 \<le> m \<and> m \<le> days * 1440) \<or> (days * 1440 \<le> m \<and> m \<le> 0)"
      using m by linarith
    then have "(0 \<le> m * us_per_minute \<and> m * us_per_minute \<le> days * us_per_day)
             \<or> (days * us_per_day \<le> m * us_per_minute \<and> m * us_per_minute \<le> 0)"
      by (auto simp add: us_per_minute_def us_per_day_def)
    then have "0 \<le> start_time + m * us_per_minute"
      "start_time + m * us_per_minute \<le> datetime_max"
      using assms by auto
    then show ?thesis using assms by (intro add_minutes_in_range) simp_all
  qed
  have 4: "try_map (add_minutes start_time) (map (\<lambda>k. step_minutes * k) (arange (?q + 1)))
             = Inr (map (\<lambda>m. start_time + m * us_per_minute)
                        (map (\<lambda>k. step_minutes * k) (arange (?q + 1))))"
    by (rule try_map_Inr) (rule each)
  have 5: "generate_time_steps start_time days step_minutes =
      Inr (map utc_of_datetime (map (\<lambda>m. start_time + m * us_per_minute)
                        (map (\<lambda>k. step_minutes * k) (arange (?q + 1)))),
           map (\<lambda>m. start_time + m * us_per_minute)
                        (map (\<lambda>k. step_minutes * k) (arange (?q + 1))))"
    unfolding generate_time_steps_def
    by (simp only: 1 2 3 4 sum.case Let_def)
  show ?thesis
    unfolding 5 by (simp add: utc_of_datetime_seconds o_def)
qed


lemma generate_time_steps_valid:
  assumes "0 \<le> start_time" "start_time + days * us_per_day \<le> datetime_max"
    and "0 < days" "0 < step_minutes"
  shows "generate_time_steps start_time days step_minutes =
           Inr (map (\<lambda>k. (start_time + step_minutes * k * us_per_minute) div 1000000)
                    (arange (days * 24 * 60 div step_minutes + 1)),
                map (\<lambda>k. start_time + step_minutes * k * us_per_minute)
                    (arange (days * 24 * 60 div step_minutes + 1)))"
proof -
  have "0 \<le> days * us_per_day"
    using assms by (simp add: us_per_day_def)
  then have range: "start_time \<le> datetime_max" "0 \<le> start_time + days * us_per_day"
    using assms by simp_all
  have q: "sgn (days * 24 * 60) * sgn step_minutes * (\<bar>days * 24 * 60\<bar> div \<bar>step_minutes\<bar>)
      = days * 24 * 60 div step_minutes"
    using assms by simp
  show ?thesis
    using generate_time_steps_result[OF assms(1) range(1) range(2) assms(2), of step_minutes]
      assms(4)
    unfolding q by simp
qed

lemma utc_minute_fields:
  "ts_utc (toordinal dt) (hour dt) (minute dt + m) 0 = (dt div us_per_minute + m) * 60"
proof -
  have d1: "dt div 86400000000 = dt div 1000000 div 86400"
    using zdiv_zmult2_eq[of 86400 dt 1000000] by simp
  have d2: "dt div 3600000000 = dt div 1000000 div 3600"
    using zdiv_zmult2_eq[of 3600 dt 1000000] by simp
  have d3: "dt div 60000000 = dt div 1000000 div 60"
    using zdiv_zmult2_eq[of 60 dt 1000000] by simp
  define s where "s = dt div 1000000"
  have "s = s div 60 * 60 + s mod 60"
    by simp
  then have core: "s div 86400 * 86400 + s div 3600 mod 24 * 3600 + s div 60 mod 60 * 60
      = s div 60 * 60"
    using seconds_fields[of s] by linarith
  have "(s div 86400 + 1 - 1) * 86400 + s div 3600 mod 24 * 3600 + (s div 60 mod 60 + m) * 60 + 0
      = (s div 60 + m) * 60"
    using core by (simp add: distrib_right)
  then show ?thesis
    unfolding ts_utc_def toordinal_def hour_def minute_def us_per_day_def us_per_minute_def
      d1 d2 d3 s_def .
qed

lemma generate_time_steps_trajectories_valid:
  assumes "0 \<le> start_time" "start_time + days * us_per_day \<le> datetime_max"
    and "0 < days" "0 < step_minutes"
  shows "generate_time_steps_trajectories start_time days step_minutes =
           Inr (map (\<lambda>k. (start_time div us_per_minute + step_minutes * k) * 60)
                    (arange (days * 24 * 60 div step_minutes + 1)))"
proof -
  let ?N = "days * 24 * 60 div step_minutes"
  have "days * us_per_day \<le> datetime_max" using assms by simp
  then have dlim: "\<bar>days\<bar> \<le> 999999999"
    using assms by (simp add: us_per_day_def datetime_max_def)
  have 1: "timedelta days 0 = Inr (days * us_per_day)"
    by (rule timedelta_days_ok[OF dlim])
  have "0 \<le> days * us_per_day" using assms by (simp add: us_per_day_def)
  then have 2: "datetime_add start_time (days * us_per_day) = Inr (start_time + days * us_per_day)"
    using assms by (auto simp add: datetime_add_def Let_def)
  have 3: "int_truediv (days * 24 * 60) step_minutes = Inr ?N"
    using assms by (intro int_truediv_pos) simp_all
  show ?thesis
    unfolding generate_time_steps_trajectories_def
    by (simp only: 1 2 3 sum.case Let_def utc_minute_fields)
qed


text \<open>
  The two constructions of the grid give the same Skyfield times when the start time
  has no seconds beyond the whole minute (both drop the microseconds).
\<close>

lemma time_grids_agree_on_whole_minutes:
  assumes "0 \<le> start_time" "start_time + days * us_per_day \<le> datetime_max"
    and "0 < days" "0 < step_minutes" and "second start_time = 0"
  shows "\<exists>times_utc times_datetime.
           generate_time_steps start_time days step_minutes = Inr (times_utc, times_datetime)
         \<and> generate_time_steps_trajectories start_time days step_minutes = Inr times_utc"
proof -
  have d3: "start_time div 60000000 = start_time div 1000000 div 60"
    using zdiv_zmult2_eq[of 60 start_time 1000000] by simp
  have s: "start_time div 1000000 = start_time div us_per_minute * 60"
    using assms(5) mult_div_mod_eq[of 60 "start_time div 1000000"]
    unfolding second_def us_per_minute_def d3 by simp
  have "(start_time + step_minutes * k * us_per_minute) div 1000000
      = (start_time div us_per_minute + step_minutes * k) * 60" for k
  proof -
    have "(start_time + step_minutes * k * us_per_minute) div 1000000
        = (step_minutes * k * 60 * 1000000 + start_time) div 1000000"
      by (simp add: us_per_minute_def algebra_simps)
    also have "\<dots> = step_minutes * k * 60 + start_time div 1000000"
      using div_mult_self3[of 1000000 start_time "step_minutes * k * 60"] by simp
    finally show ?thesis by (simp add: s algebra_simps)
  qed
  then show ?thesis
    using generate_time_steps_valid[OF assms(1-4)]
      generate_time_steps_trajectories_valid[OF assms(1-4)] by simp
qed




section \<open>Claims about the time grid\<close>






text \<open>
  Claim C8 says that the grids of \<open>show_all.py\<close> and of
  \<open>show_satellites_trajectories.py\<close> hold the same instants for every input.  The
  second file passes no seconds to \<open>ts.utc\<close>, the first one passes \<open>dt.second\<close>: from
  2024-01-01T00:00:30, for one day in steps of 720 minutes, the first grid is
  00:00:30, 12:00:30, 00:00:30 and the second one is 00:00:00, 12:00:00, 00:00:00.
\<close>

theorem time_grids_differ:
  "generate_time_steps (mk_datetime 738886 0 0 30 0) 1 720 =
     Inr ([ts_utc 738886 0 0 30, ts_utc 738886 12 0 30, ts_utc 738887 0 0 30],
          [mk_datetime 738886 0 0 30 0, mk_datetime 738886 12 0 30 0,
           mk_datetime 738887 0 0 30 0])
   \<and> generate_time_steps_trajectories (mk_datetime 738886 0 0 30 0) 1 720 =
     Inr [ts_utc 738886 0 0 0, ts_utc 738886 12 0 0, ts_utc 738887 0 0 0]
   \<and> ts_utc 738886 0 0 30 \<noteq> ts_utc 738886 0 0 0"
  by (simp add: generate_time_steps_def generate_time_steps_trajectories_def
        timedelta_def datetime_add_def int_truediv_def
        arange_def add_minutes_def utc_of_datetime_def ts_utc_def toordinal_def hour_def
        minute_def second_def mk_datetime_def us_per_day_def us_per_minute_def
        datetime_max_def Let_def upt_rec)

section \<open>Facts about the altitude filter\<close>

lemma try_map_nth_in_range:
  assumes "\<forall>i\<in>set idx. i < length xs"
  shows "try_map (\<lambda>i. if i < length xs then Inr (xs ! i) else Inl IndexError) idx
           = Inr (map (\<lambda>i. xs ! i) idx)"
  using assms by (intro try_map_Inr) simp

lemma set_mask_indices: "set (mask_indices m) = {i. i < length m \<and> m ! i}"
  by (auto simp add: mask_indices_def)

lemma mask_indices_map:
  "mask_indices (map P xs) = filter (\<lambda>i. P (xs ! i)) [0..<length xs]"
  unfolding mask_indices_def by (rule filter_cong) simp_all

lemma select_zip:
  assumes "length ys = length xs"
  shows "map (\<lambda>i. ys ! i) (filter (\<lambda>i. P (xs ! i)) [0..<length xs])
           = map snd (filter (\<lambda>p. P (fst p)) (zip xs ys))"
  using assms
proof (induction ys xs rule: list_induct2)
  case Nil
  then show ?case by simp
next
  case (Cons y ys x xs)
  have upt: "[0..<length (x # xs)] = 0 # map Suc [0..<length xs]"
    by (simp add: upt_conv_Cons map_Suc_upt del: upt_Suc)
  show ?case
    unfolding upt using Cons.IH by (simp add: filter_map o_def)
qed

lemma select_self:
  "map (\<lambda>i. xs ! i) (filter (\<lambda>i. P (xs ! i)) [0..<length xs]) = filter P xs"
proof -
  have "map (\<lambda>i. xs ! i) (filter (\<lambda>i. P (xs ! i)) [0..<length xs])
        = map snd (filter (\<lambda>p. P (fst p)) (zip xs xs))"
    by (rule select_zip) simp
  also have "\<dots> = filter P xs"
    by (induction xs) simp_all
  finally show ?thesis .
qed

lemma list_ex_mask: "list_ex (\<lambda>m. m) (map P xs) = (\<exists>x\<in>set xs. P x)"
  by (simp add: list_ex_iff)

lemma altitude_filter_aligned:
  assumes "aligned e"
  shows "altitude_filter mx e =
           Inr (if \<exists>a\<in>set (altitude_km e). a \<le> mx then Some (select (low_indices mx e) e)
                else None)"
proof -
  let ?m = "map (\<lambda>a. a \<le> mx) (altitude_km e)"
  have idx: "mask_indices ?m = low_indices mx e"
    by (simp add: mask_indices_map low_indices_def)
  have inr: "\<forall>i\<in>set (mask_indices ?m). i < length (times_entry e)"
    using assms by (simp add: set_mask_indices aligned_def)
  have ft: "filtered_times (times_entry e) ?m = Inr (map (\<lambda>i. times_entry e ! i) (low_indices mx e))"
    using try_map_nth_in_range[OF inr] by (simp add: filtered_times_def idx)
  have bi: "boolean_index (latitude e) ?m = Inr (map (\<lambda>i. latitude e ! i) (low_indices mx e))"
    "boolean_index (longitude e) ?m = Inr (map (\<lambda>i. longitude e ! i) (low_indices mx e))"
    "boolean_index (elevation_m e) ?m = Inr (map (\<lambda>i. elevation_m e ! i) (low_indices mx e))"
    "boolean_index (altitude_km e) ?m = Inr (map (\<lambda>i. altitude_km e ! i) (low_indices mx e))"
    using assms by (simp_all add: boolean_index_def idx aligned_def)
  show ?thesis
    unfolding altitude_filter_def Let_def list_ex_mask ft bi
    by (simp add: select_def)
qed

lemma length_low_indices_le: "\<forall>i\<in>set (low_indices mx e). i < length (altitude_km e)"
  by (simp add: low_indices_def)

lemma aligned_select: "aligned (select idx e)"
  by (simp add: aligned_def select_def)

lemma altitude_km_select_low:
  "altitude_km (select (low_indices mx e) e) = filter (\<lambda>a. a \<le> mx) (altitude_km e)"
  using select_self[of "altitude_km e" "\<lambda>a. a \<le> mx"]
  by (simp add: select_def low_indices_def)

lemma samples_nth:
  assumes "aligned e" "i < length (altitude_km e)"
  shows "samples e ! i
    = (latitude e ! i, longitude e ! i, elevation_m e ! i, altitude_km e ! i, times_entry e ! i)"
  using assms by (simp add: samples_def aligned_def)

lemma length_samples: "aligned e \<Longrightarrow> length (samples e) = length (altitude_km e)"
  by (simp add: samples_def aligned_def)

lemma samples_select:
  assumes "aligned e" "\<forall>i\<in>set idx. i < length (altitude_km e)"
  shows "samples (select idx e) = map (\<lambda>i. samples e ! i) idx"
proof -
  have "samples (select idx e)
      = map (\<lambda>i. (latitude e ! i, longitude e ! i, elevation_m e ! i, altitude_km e ! i,
                    times_entry e ! i)) idx"
    by (simp add: samples_def select_def zip_map_map zip_same_conv_map o_def)
  also have "\<dots> = map (\<lambda>i. samples e ! i) idx"
    using assms by (intro map_cong) (simp_all add: samples_nth)
  finally show ?thesis .
qed

lemma samples_select_low:
  assumes "aligned e"
  shows "samples (select (low_indices mx e) e)
           = filter (\<lambda>s. sample_altitude s \<le> mx) (samples e)"
proof -
  let ?S = "samples e"
  have "filter (\<lambda>s. sample_altitude s \<le> mx) ?S
      = map (\<lambda>i. ?S ! i) (filter (\<lambda>i. sample_altitude (?S ! i) \<le> mx) [0..<length ?S])"
    using select_self[of ?S "\<lambda>s. sample_altitude s \<le> mx"] by simp
  also have "filter (\<lambda>i. sample_altitude (?S ! i) \<le> mx) [0..<length ?S] = low_indices mx e"
    unfolding low_indices_def length_samples[OF assms]
    using assms by (intro filter_cong) (simp_all add: samples_nth sample_altitude_def)
  finally show ?thesis
    using samples_select[OF assms length_low_indices_le] by simp
qed

section \<open>Claims about the altitude filter\<close>

text \<open>
  Claim C4.  For every aligned trajectory and every threshold, the altitude filter
  keeps exactly the samples whose \<open>altitude_km\<close> is at or below the threshold, in
  their original order: the comparison is \<open>\<le>\<close> on the altitude sequence of the
  trajectory itself, the result holds the rows at the positions where it succeeds,
  and it is absent when it succeeds nowhere.
\<close>

theorem altitude_filter_keeps_low_samples:
  assumes "aligned e"
  shows "altitude_filter mx e =
           Inr (if \<exists>a\<in>set (altitude_km e). a \<le> mx
                then Some (select (low_indices mx e) e) else None)
       \<and> aligned (select (low_indices mx e) e)
       \<and> samples (select (low_indices mx e) e)
           = filter (\<lambda>s. sample_altitude s \<le> mx) (samples e)
       \<and> altitude_km (select (low_indices mx e) e)
           = filter (\<lambda>a. a \<le> mx) (altitude_km e)"
  using altitude_filter_aligned[OF assms] aligned_select samples_select_low[OF assms]
    altitude_km_select_low by simp

text \<open>
  The concrete case of the claim: altitudes 500, 900, 750, 1200, 600 km with the
  threshold 800 leave the rows 0, 2 and 4, with altitudes 500, 750, 600 (the instants
  are numbered 0 to 4 here, so the kept instants show the kept positions).  An
  altitude equal to the threshold is kept.
\<close>

theorem altitude_filter_keeps_low_samples_witness:
  "aligned \<lparr> latitude = [10, 20, 30, 40, 50], longitude = [1, 2, 3, 4, 5],
             elevation_m = [500000, 900000, 750000, 1200000, 600000],
             altitude_km = [500, 900, 750, 1200, 600], times_entry = [0, 1, 2, 3, 4] \<rparr>
   \<and> altitude_filter 800
        \<lparr> latitude = [10, 20, 30, 40, 50], longitude = [1, 2, 3, 4, 5],
          elevation_m = [500000, 900000, 750000, 1200000, 600000],
          altitude_km = [500, 900, 750, 1200, 600], times_entry = [0, 1, 2, 3, 4] \<rparr>
     = Inr (Some \<lparr> latitude = [10, 30, 50], longitude = [1, 3, 5],
                   elevation_m = [500000, 750000, 600000],
                   altitude_km = [500, 750, 600], times_entry = [0, 2, 4] \<rparr>)
   \<and> altitude_filter 800
        \<lparr> latitude = [10, 20], longitude = [1, 2], elevation_m = [800000, 800001],
          altitude_km = [800, 800.001], times_entry = [0, 1] \<rparr>
     = Inr (Some \<lparr> latitude = [10], longitude = [1], elevation_m = [800000],
                   altitude_km = [800], times_entry = [0] \<rparr>)"
proof -
  let ?e = "\<lparr> latitude = [10, 20, 30, 40, 50], longitude = [1, 2, 3, 4, 5],
             elevation_m = [500000, 900000, 750000, 1200000, 600000],
             altitude_km = [500, 900, 750, 1200, 600], times_entry = [0, 1, 2, 3, 4::int] \<rparr>"
  let ?b = "\<lparr> latitude = [10, 20], longitude = [1, 2], elevation_m = [800000, 800001],
          altitude_km = [800, 800.001], times_entry = [0, 1::int] \<rparr>"
  have a: "aligned ?e" and b: "aligned ?b"
    by (simp_all add: aligned_def)
  have 1: "altitude_filter 800 ?e = Inr (Some (select (low_indices 800 ?e) ?e))"
    using altitude_filter_keeps_low_samples[OF a, of 800] by simp
  have 2: "altitude_filter 800 ?b = Inr (Some (select (low_indices 800 ?b) ?b))"
    using altitude_filter_keeps_low_samples[OF b, of 800] by simp
  have 3: "low_indices 800 ?e = [0, 2, 4]"
    by (simp add: low_indices_def upt_rec)
  have 4: "low_indices 800 ?b = [0]"
    by (simp add: low_indices_def upt_rec)
  show ?thesis
    unfolding 1 2 3 4 using a by (simp add: select_def)
qed

text \<open>What a successful filter run returns, for any entry.\<close>

lemma try_map_nth_result:
  "try_map (\<lambda>i. if i < length xs then Inr (xs ! i) else Inl IndexError) idx = Inr ys
     \<Longrightarrow> ys = map (\<lambda>i. xs ! i) idx"
  by (induction idx arbitrary: ys) (auto split: if_splits sum.splits)

lemma altitude_filter_Some:
  assumes "altitude_filter mx e = Inr (Some e')"
  shows "e' = select (low_indices mx e) e" and "\<exists>a\<in>set (altitude_km e). a \<le> mx"
proof -
  let ?m = "map (\<lambda>a. a \<le> mx) (altitude_km e)"
  have idx: "mask_indices ?m = low_indices mx e"
    by (simp add: mask_indices_map low_indices_def)
  show ex: "\<exists>a\<in>set (altitude_km e). a \<le> mx"
    using assms by (auto simp add: altitude_filter_def Let_def list_ex_mask split: if_splits)
  then have *: "(case filtered_times (times_entry e) ?m of Inl x \<Rightarrow> Inl x | Inr ft \<Rightarrow>
            case boolean_index (latitude e) ?m of Inl x \<Rightarrow> Inl x | Inr la \<Rightarrow>
            case boolean_index (longitude e) ?m of Inl x \<Rightarrow> Inl x | Inr lo \<Rightarrow>
            case boolean_index (elevation_m e) ?m of Inl x \<Rightarrow> Inl x | Inr el \<Rightarrow>
            case boolean_index (altitude_km e) ?m of Inl x \<Rightarrow> Inl x | Inr al \<Rightarrow>
              Inr (Some \<lparr> latitude = la, longitude = lo, elevation_m = el,
                          altitude_km = al, times_entry = ft \<rparr>)) = Inr (Some e')"
    using assms by (simp add: altitude_filter_def Let_def list_ex_mask)
  from * obtain ft where ft: "filtered_times (times_entry e) ?m = Inr ft"
    by (cases "filtered_times (times_entry e) ?m") simp_all
  from * ft obtain la where la: "boolean_index (latitude e) ?m = Inr la"
    by (cases "boolean_index (latitude e) ?m") simp_all
  from * ft la obtain lo where lo: "boolean_index (longitude e) ?m = Inr lo"
    by (cases "boolean_index (longitude e) ?m") simp_all
  from * ft la lo obtain el where el: "boolean_index (elevation_m e) ?m = Inr el"
    by (cases "boolean_index (elevation_m e) ?m") simp_all
  from * ft la lo el obtain al where al: "boolean_index (altitude_km e) ?m = Inr al"
    by (cases "boolean_index (altitude_km e) ?m") simp_all
  have e': "e' = \<lparr> latitude = la, longitude = lo, elevation_m = el,
                          altitude_km = al, times_entry = ft \<rparr>"
    using * ft la lo el al by simp
  have "ft = map (\<lambda>i. times_entry e ! i) (low_indices mx e)"
    using ft try_map_nth_result[of "times_entry e" "mask_indices ?m" ft]
    by (simp add: filtered_times_def idx)
  moreover have "la = map (\<lambda>i. latitude e ! i) (low_indices mx e)"
    "lo = map (\<lambda>i. longitude e ! i) (low_indices mx e)"
    "el = map (\<lambda>i. elevation_m e ! i) (low_indices mx e)"
    "al = map (\<lambda>i. altitude_km e ! i) (low_indices mx e)"
    using la lo el al by (auto simp add: boolean_index_def idx split: if_splits)
  ultimately show "e' = select (low_indices mx e) e"
    using e' by (simp add: select_def)
qed

lemma map_nth_upto: "n = length xs \<Longrightarrow> map (\<lambda>i. xs ! i) [0..<n] = xs"
  by (simp add: map_nth)

lemma select_all:
  assumes "aligned e"
  shows "select [0..<length (altitude_km e)] e = e"
  using assms by (simp add: select_def aligned_def map_nth_upto)

lemma low_indices_all:
  assumes "\<forall>a\<in>set (altitude_km e). a \<le> mx"
  shows "low_indices mx e = [0..<length (altitude_km e)]"
  using assms by (simp add: low_indices_def)

text \<open>
  Claim C9.  Filtering an already filtered trajectory again with the same threshold
  gives the same trajectory: when the filter applied to \<open>e\<close> yields the entry \<open>e'\<close>, the
  filter applied to \<open>e'\<close> yields \<open>e'\<close>.
\<close>

theorem altitude_filter_idempotent:
  assumes "altitude_filter mx e = Inr (Some e')"
  shows "altitude_filter mx e' = Inr (Some e')"
proof -
  have e': "e' = select (low_indices mx e) e" and ex: "\<exists>a\<in>set (altitude_km e). a \<le> mx"
    using altitude_filter_Some[OF assms] by simp_all
  have al: "aligned e'"
    unfolding e' by (rule aligned_select)
  have alt: "altitude_km e' = filter (\<lambda>a. a \<le> mx) (altitude_km e)"
    unfolding e' by (rule altitude_km_select_low)
  have all: "\<forall>a\<in>set (altitude_km e'). a \<le> mx"
    unfolding alt by simp
  have "altitude_km e' \<noteq> []"
    unfolding alt using ex by (simp add: filter_empty_conv)
  then have some: "\<exists>a\<in>set (altitude_km e'). a \<le> mx"
    using all by (cases "altitude_km e'") simp_all
  have "altitude_filter mx e' = Inr (Some (select (low_indices mx e') e'))"
    using altitude_filter_aligned[OF al, of mx] some by simp
  also have "select (low_indices mx e') e' = e'"
    unfolding low_indices_all[OF all] by (rule select_all[OF al])
  finally show ?thesis .
qed

text \<open>
  At the trajectory with altitudes 500, 900, 750, 1200, 600 km and the threshold 800:
  the first run keeps rows 0, 2 and 4, and the second run returns them unchanged.
\<close>

theorem altitude_filter_idempotent_witness:
  "altitude_filter 800
        \<lparr> latitude = [10, 20, 30, 40, 50], longitude = [1, 2, 3, 4, 5],
          elevation_m = [500000, 900000, 750000, 1200000, 600000],
          altitude_km = [500, 900, 750, 1200, 600], times_entry = [0, 1, 2, 3, 4] \<rparr>
     = Inr (Some \<lparr> latitude = [10, 30, 50], longitude = [1, 3, 5],
                   elevation_m = [500000, 750000, 600000],
                   altitude_km = [500, 750, 600], times_entry = [0, 2, 4] \<rparr>)
   \<and> altitude_filter 800
        \<lparr> latitude = [10, 30, 50], longitude = [1, 3, 5],
          elevation_m = [500000, 750000, 600000],
          altitude_km = [500, 750, 600], times_entry = [0, 2, 4] \<rparr>
     = Inr (Some \<lparr> latitude = [10, 30, 50], longitude = [1, 3, 5],
                   elevation_m = [500000, 750000, 600000],
                   altitude_km = [500, 750, 600], times_entry = [0, 2, 4] \<rparr>)"
proof -
  let ?e = "\<lparr> latitude = [10, 20, 30, 40, 50], longitude = [1, 2, 3, 4, 5],
             elevation_m = [500000, 900000, 750000, 1200000, 600000],
             altitude_km = [500, 900, 750, 1200, 600], times_entry = [0, 1, 2, 3, 4::int] \<rparr>"
  have a: "aligned ?e"
    by (simp add: aligned_def)
  have 3: "low_indices 800 ?e = [0, 2, 4]"
    by (simp add: low_indices_def upt_rec)
  have 1: "altitude_filter 800 ?e
     = Inr (Some \<lparr> latitude = [10, 30, 50], longitude = [1, 3, 5],
                   elevation_m = [500000, 750000, 600000],
                   altitude_km = [500, 750, 600], times_entry = [0, 2, 4] \<rparr>)"
    using altitude_filter_aligned[OF a, of 800] by (simp add: 3 select_def)
  show ?thesis
    using 1 altitude_filter_idempotent[OF 1] by simp
qed

section \<open>Facts about the intake of element sets\<close>

text \<open>Different identifiers have different names: \<open>str\<close> is injective.\<close>

lemma digit_inj: "a < 10 \<Longrightarrow> b < 10 \<Longrightarrow> digit a = digit b \<Longrightarrow> a = b"
proof -
  assume "a < 10" "b < 10" "digit a = digit b"
  moreover have "distinct ''0123456789''" by simp
  ultimately show "a = b"
    unfolding digit_def by (simp add: nth_eq_iff_index_eq)
qed

lemma str_small: "n < 10 \<Longrightarrow> str n = [digit n]"
  by (simp add: str.simps)

lemma str_large: "\<not> n < 10 \<Longrightarrow> str n = str (n div 10) @ [digit (n mod 10)]"
  by (subst str.simps) simp

lemma str_not_empty: "str n \<noteq> []"
  by (cases "n < 10") (simp_all add: str_small str_large)

lemma str_inj: "str a = str b \<Longrightarrow> a = b"
proof (induction a arbitrary: b rule: str.induct)
  case (1 n)
  show ?case
  proof (cases "n < 10")
    case small: True
    show ?thesis
    proof (cases "b < 10")
      case True
      then show ?thesis using small "1.prems" by (simp add: str_small digit_inj)
    next
      case False
      then show ?thesis
        using small "1.prems" str_not_empty[of "b div 10"] by (simp add: str_small str_large)
    qed
  next
    case large: False
    show ?thesis
    proof (cases "b < 10")
      case True
      then show ?thesis
        using large "1.prems" str_not_empty[of "n div 10"] by (simp add: str_small str_large)
    next
      case False
      then have eq: "str (n div 10) = str (b div 10)" "digit (n mod 10) = digit (b mod 10)"
        using large "1.prems" by (simp_all add: str_large)
      have "n div 10 = b div 10"
        using "1.IH"[OF large eq(1)] .
      moreover have "n mod 10 = b mod 10"
        using eq(2) by (intro digit_inj) simp_all
      ultimately show ?thesis
        by (metis div_mult_mod_eq)
    qed
  qed
qed

lemma fetch_tle_name: "fetch_tle http_get sat_id = Some (nm, l1, l2) \<Longrightarrow> nm = str sat_id"
  by (auto simp add: fetch_tle_def Let_def split: response.splits if_splits)



lemma fetch_satellites_origin:
  "s \<in> set (snd (fetch_satellites http_get ids)) \<Longrightarrow>
     \<exists>i\<in>set ids. fetch_tle http_get i = Some (name s, line1 s, line2 s)"
proof (induction ids)
  case Nil
  then show ?case by simp
next
  case (Cons i ids)
  then show ?case
    by (auto simp add: Let_def split: prod.splits option.splits if_splits)
qed

lemma fetch_satellites_inj:
  "inj_on name (set (snd (fetch_satellites http_get ids)))"
proof (rule inj_onI)
  fix s t
  assume s: "s \<in> set (snd (fetch_satellites http_get ids))"
    and t: "t \<in> set (snd (fetch_satellites http_get ids))" and eq: "name s = name t"
  from fetch_satellites_origin[OF s] obtain i where
    i: "fetch_tle http_get i = Some (name s, line1 s, line2 s)" by blast
  from fetch_satellites_origin[OF t] obtain j where
    j: "fetch_tle http_get j = Some (name t, line1 t, line2 t)" by blast
  have "str i = str j"
    using fetch_tle_name[OF i] fetch_tle_name[OF j] eq by simp
  then have "i = j" by (rule str_inj)
  then have "line1 s = line1 t" "line2 s = line2 t"
    using i j by simp_all
  then show "s = t" using eq by simp
qed


section \<open>Facts about trajectory collection\<close>

text \<open>The two sequences of a grid correspond position by position.\<close>

lemma generate_time_steps_Inr:
  assumes "generate_time_steps start_time days step_minutes = Inr (times_utc, times_datetime)"
  shows "times_utc = map utc_of_datetime times_datetime"
  using assms by (auto simp add: generate_time_steps_def Let_def split: sum.splits)

lemma generate_time_steps_lengths:
  assumes "generate_time_steps start_time days step_minutes = Inr (times_utc, times_datetime)"
  shows "length times_datetime = length times_utc"
  using generate_time_steps_Inr[OF assms] by simp

lemma aligned_unfiltered_entry:
  "length times_datetime = length sub \<Longrightarrow> aligned (unfiltered_entry sub times_datetime)"
  by (simp add: aligned_def unfiltered_entry_def)

lemma collect_satellite_None:
  "prop sat = None \<Longrightarrow>
     collect_satellite prop mx times_utc times_datetime flt sat = Inl PropagationError"
  by (simp add: collect_satellite_def subpoints_def)

lemma collect_satellite_unfiltered:
  "prop sat = Some f \<Longrightarrow>
     collect_satellite prop mx times_utc times_datetime False sat
       = Inr (Some (unfiltered_entry (map f times_utc) times_datetime))"
  by (simp add: collect_satellite_def subpoints_def)

lemma collect_satellite_filtered:
  "prop sat = Some f \<Longrightarrow>
     collect_satellite prop mx times_utc times_datetime True sat
       = altitude_filter mx (unfiltered_entry (map f times_utc) times_datetime)"
  by (simp add: collect_satellite_def subpoints_def)

lemma collect_satellite_Inr:
  assumes "collect_satellite prop mx times_utc times_datetime flt sat = Inr r"
  shows "\<exists>f. prop sat = Some f"
  using assms by (cases "prop sat") (simp_all add: collect_satellite_None)




lemma collect_loop_all_evaluated:
  assumes "collect_loop prop mx times_utc times_datetime flt data satellites = Inr data'"
  shows "\<forall>s\<in>set satellites. \<exists>r. collect_satellite prop mx times_utc times_datetime flt s = Inr r"
  using assms
proof (induction satellites arbitrary: data)
  case Nil
  then show ?case by simp
next
  case (Cons s satellites)
  then show ?case
    by (auto split: sum.splits option.splits)
qed

lemma collect_loop_other_names:
  assumes "collect_loop prop mx times_utc times_datetime flt data satellites = Inr data'"
    and "nm \<notin> name ` set satellites"
  shows "data' nm = data nm"
  using assms
proof (induction satellites arbitrary: data)
  case Nil
  then show ?case by simp
next
  case (Cons s satellites)
  then show ?case
    by (auto split: sum.splits option.splits)
qed

lemma collect_loop_origin:
  assumes "collect_loop prop mx times_utc times_datetime flt data satellites = Inr data'"
    and "data' nm = Some e"
  shows "data nm = Some e
       \<or> (\<exists>s\<in>set satellites. name s = nm
             \<and> collect_satellite prop mx times_utc times_datetime flt s = Inr (Some e))"
  using assms
proof (induction satellites arbitrary: data)
  case Nil
  then show ?case by simp
next
  case (Cons s satellites)
  show ?case
  proof (cases "collect_satellite prop mx times_utc times_datetime flt s")
    case (Inl x)
    then show ?thesis using Cons.prems by simp
  next
    case (Inr r)
    show ?thesis
    proof (cases r)
      case None
      then show ?thesis using Cons.IH[of data] Cons.prems Inr by auto
    next
      case (Some e0)
      then have "collect_loop prop mx times_utc times_datetime flt (data(name s \<mapsto> e0)) satellites
                  = Inr data'"
        using Cons.prems Inr by simp
      from Cons.IH[OF this Cons.prems(2)] show ?thesis
        using Inr Some by (auto split: if_splits)
    qed
  qed
qed

lemma collect_loop_lookup:
  assumes "collect_loop prop mx times_utc times_datetime flt data satellites = Inr data'"
    and "inj_on name (set satellites)" and "s \<in> set satellites"
    and "collect_satellite prop mx times_utc times_datetime flt s = Inr r"
  shows "data' (name s) = (case r of None \<Rightarrow> data (name s) | Some e \<Rightarrow> Some e)"
  using assms
proof (induction satellites arbitrary: data)
  case Nil
  then show ?case by simp
next
  case (Cons t satellites)
  have inj: "inj_on name (set satellites)"
    using Cons.prems(2) by (simp add: inj_on_def)
  obtain rt where rt: "collect_satellite prop mx times_utc times_datetime flt t = Inr rt"
    using Cons.prems(1) by (cases "collect_satellite prop mx times_utc times_datetime flt t") simp_all
  let ?d = "case rt of None \<Rightarrow> data | Some e \<Rightarrow> data(name t \<mapsto> e)"
  have loop: "collect_loop prop mx times_utc times_datetime flt ?d satellites = Inr data'"
    using Cons.prems(1) rt by (cases rt) simp_all
  show ?case
  proof (cases "s \<in> set satellites")
    case True
    from Cons.IH[OF loop inj True Cons.prems(4)]
    have "data' (name s) = (case r of None \<Rightarrow> ?d (name s) | Some e \<Rightarrow> Some e)" .
    moreover have "r = None \<Longrightarrow> ?d (name s) = data (name s)"
    proof (cases "name t = name s")
      case same: True
      assume "r = None"
      have "t = s"
        using same Cons.prems(2) True by (auto simp add: inj_on_def)
      then have "rt = None" using rt Cons.prems(4) \<open>r = None\<close> by simp
      then show ?thesis by simp
    next
      case False
      then show ?thesis by (cases rt) simp_all
    qed
    ultimately show ?thesis by (cases r) simp_all
  next
    case False
    then have st: "s = t" using Cons.prems(3) by simp
    then have "name s \<notin> name ` set satellites"
      using False Cons.prems(2) by (auto simp add: inj_on_def)
    from collect_loop_other_names[OF loop this]
    have "data' (name s) = ?d (name s)" .
    moreover have "rt = r" using rt Cons.prems(4) st by simp
    ultimately show ?thesis using st by (cases r) simp_all
  qed
qed

section \<open>Facts about the run\<close>

lemma main_Plotted:
  assumes "main http_get prop cfg start_time = (events, Inr (Plotted filtered unfiltered))"
  shows "\<exists>times_utc times_datetime.
      generate_time_steps start_time (PREDICTION_DAYS cfg) (TIME_STEP_MINUTES cfg)
        = Inr (times_utc, times_datetime)
    \<and> events = fst (fetch_satellites http_get (SATELLITE_IDS cfg))
    \<and> snd (fetch_satellites http_get (SATELLITE_IDS cfg)) \<noteq> []
    \<and> collect_satellite_data prop (MAX_ALTITUDE_KM cfg)
          (snd (fetch_satellites http_get (SATELLITE_IDS cfg))) times_utc times_datetime True
        = Inr filtered
    \<and> collect_satellite_data prop (MAX_ALTITUDE_KM cfg)
          (snd (fetch_satellites http_get (SATELLITE_IDS cfg))) times_utc times_datetime False
        = Inr unfiltered"
  using assms
  by (auto simp add: main_def Let_def split: sum.splits prod.splits if_splits)

lemma main_after_grid:
  assumes "generate_time_steps start_time (PREDICTION_DAYS cfg) (TIME_STEP_MINUTES cfg)
             = Inr (times_utc, times_datetime)"
  shows "main http_get prop cfg start_time =
     (fst (fetch_satellites http_get (SATELLITE_IDS cfg)),
      if snd (fetch_satellites http_get (SATELLITE_IDS cfg)) = [] then Inr NoSatellitesToTrack
      else
        (case collect_satellite_data prop (MAX_ALTITUDE_KM cfg)
                (snd (fetch_satellites http_get (SATELLITE_IDS cfg)))
                times_utc times_datetime True of
           Inl x \<Rightarrow> Inl x
         | Inr filtered \<Rightarrow>
             (case collect_satellite_data prop (MAX_ALTITUDE_KM cfg)
                     (snd (fetch_satellites http_get (SATELLITE_IDS cfg)))
                     times_utc times_datetime False of
                Inl x \<Rightarrow> Inl x
              | Inr unfiltered \<Rightarrow> Inr (Plotted filtered unfiltered))))"
  using assms
  by (simp add: main_def Let_def split: sum.splits prod.splits)




lemma main_entries:
  assumes "main http_get prop cfg start_time = (events, Inr (Plotted filtered unfiltered))"
    and "generate_time_steps start_time (PREDICTION_DAYS cfg) (TIME_STEP_MINUTES cfg)
        = Inr (times_utc, times_datetime)"
  shows "case unfiltered nm of
           None \<Rightarrow> filtered nm = None
         | Some u \<Rightarrow> aligned u \<and> times_entry u = times_datetime
                     \<and> altitude_filter (MAX_ALTITUDE_KM cfg) u = Inr (filtered nm)"
proof -
  let ?sats = "snd (fetch_satellites http_get (SATELLITE_IDS cfg))"
  let ?mx = "MAX_ALTITUDE_KM cfg"
  from main_Plotted[OF assms(1)] assms(2)
  have f: "collect_loop prop ?mx times_utc times_datetime True Map.empty ?sats = Inr filtered"
    and u: "collect_loop prop ?mx times_utc times_datetime False Map.empty ?sats = Inr unfiltered"
    by (auto simp add: collect_satellite_data_def)
  have len: "length times_datetime = length times_utc"
    by (rule generate_time_steps_lengths[OF assms(2)])
  have inj: "inj_on name (set ?sats)"
    by (rule fetch_satellites_inj)
  show ?thesis
  proof (cases "nm \<in> name ` set ?sats")
    case False
    then show ?thesis
      using collect_loop_other_names[OF f False] collect_loop_other_names[OF u False] by simp
  next
    case True
    then obtain s where s: "s \<in> set ?sats" "nm = name s" by auto
    from collect_loop_all_evaluated[OF u] s(1) obtain r where
      "collect_satellite prop ?mx times_utc times_datetime False s = Inr r" by blast
    from collect_satellite_Inr[OF this] obtain g where g: "prop s = Some g" by blast
    let ?u = "unfiltered_entry (map g times_utc) times_datetime"
    have al: "aligned ?u"
      using len by (intro aligned_unfiltered_entry) simp
    have un: "unfiltered nm = Some ?u"
      using collect_loop_lookup[OF u inj s(1) collect_satellite_unfiltered[of "prop" s g, OF g]]
        s(2) by simp
    from altitude_filter_aligned[OF al, of ?mx] obtain r where
      r: "altitude_filter ?mx ?u = Inr r" by blast
    then have "collect_satellite prop ?mx times_utc times_datetime True s = Inr r"
      using collect_satellite_filtered[of "prop" s g, OF g] by simp
    from collect_loop_lookup[OF f inj s(1) this]
    have "filtered nm = r"
      using s(2) by (cases r) simp_all
    then show ?thesis
      using un al r by (simp add: unfiltered_entry_def)
  qed
qed

section \<open>Facts about the example run\<close>

lemma example_config_fields:
  "PREDICTION_DAYS example_config = 1" "TIME_STEP_MINUTES example_config = 720"
  "MAX_ALTITUDE_KM example_config = 800"
  "SATELLITE_IDS example_config = [59625, 60453, 59626, 60452, 40115]"
  by (simp_all add: example_config_def config_py_def)

lemma example_grid:
  "generate_time_steps example_start (PREDICTION_DAYS example_config)
       (TIME_STEP_MINUTES example_config)
     = Inr (example_times_utc, example_times_datetime)"
  unfolding example_config_fields
  by (simp add: generate_time_steps_def example_times_utc_def example_times_datetime_def
        timedelta_def datetime_add_def int_truediv_def example_start_def
        arange_def add_minutes_def utc_of_datetime_def ts_utc_def toordinal_def hour_def
        minute_def second_def mk_datetime_def us_per_day_def us_per_minute_def
        datetime_max_def Let_def upt_rec)

lemma str_examples:
  "str 59625 = ''59625''" "str 60453 = ''60453''" "str 59626 = ''59626''"
  "str 60452 = ''60452''" "str 40115 = ''40115''"
  by (simp_all add: str.simps digit_def)

lemma example_fetch:
  "fetch_tle example_http_get 59625 = Some (''59625'', ''1 59625'', ''2 59625'')"
  "fetch_tle example_http_get 60453 = None"
  "fetch_tle example_http_get 59626 = Some (''59626'', ''1 59626'', ''2 59626'')"
  "fetch_tle example_http_get 60452 = None"
  "fetch_tle example_http_get 40115 = Some (''40115'', ''1 40115'', ''2 40115'')"
  by (simp_all add: fetch_tle_def example_http_get_def example_tle_def str_examples
        splitlines_def Let_def)


lemma example_intake:
  "fetch_satellites example_http_get (SATELLITE_IDS example_config)
     = (example_messages, example_satellites)"
  unfolding example_config_fields
  by (simp add: example_fetch example_messages_def example_satellites_def)

lemma example_filtered:
  "collect_satellite_data example_propagator 800 example_satellites
      example_times_utc example_times_datetime True
   = Inr example_filtered_data"
  by (simp add: collect_satellite_data_def collect_satellite_def subpoints_def
        example_satellites_def example_times_utc_def example_times_datetime_def
        example_filtered_data_def
        example_propagator_def example_track_def altitude_filter_def unfiltered_entry_def
        filtered_times_def boolean_index_def mask_indices_def Let_def upt_rec)

lemma example_unfiltered:
  "collect_satellite_data example_propagator 800 example_satellites
      example_times_utc example_times_datetime False
   = Inr example_all_data"
  by (simp add: collect_satellite_data_def collect_satellite_def subpoints_def
        example_satellites_def example_times_utc_def example_times_datetime_def
        example_all_data_def
        example_propagator_def example_track_def unfiltered_entry_def)

lemma example_run:
  "main example_http_get example_propagator example_config example_start
     = (example_messages, Inr (Plotted example_filtered_data example_all_data))"
proof -
  have ne: "example_satellites \<noteq> []"
    by (simp add: example_satellites_def)
  show ?thesis
    unfolding main_after_grid[OF example_grid] example_intake
    using ne by (simp add: example_config_fields example_filtered example_unfiltered)
qed



section \<open>Claims about trajectory collection\<close>




text \<open>
  Claim C5.  In the result of \<open>collect_satellite_data\<close> with the filter, a name has no
  entry when no satellite of that name has a sample at or below the threshold on the
  grid; and an entry that is present never holds empty sequences.
\<close>

theorem no_low_sample_no_entry:
  assumes "collect_satellite_data prop mx satellites times_utc times_datetime True = Inr data"
  shows "((\<forall>s\<in>set satellites. name s = nm \<longrightarrow>
             (\<forall>f. prop s = Some f \<longrightarrow> (\<forall>t\<in>set times_utc. \<not> elevation_in_km (f t) \<le> mx)))
           \<longrightarrow> data nm = None)
       \<and> (\<forall>e. data nm = Some e \<longrightarrow> altitude_km e \<noteq> [])"
proof -
  have origin: "\<exists>s\<in>set satellites. \<exists>f. name s = nm \<and> prop s = Some f
      \<and> altitude_filter mx (unfiltered_entry (map f times_utc) times_datetime) = Inr (Some e)"
    if "data nm = Some e" for e
  proof -
    from collect_loop_origin[OF assms[unfolded collect_satellite_data_def] that]
    obtain s where s: "s \<in> set satellites" "name s = nm"
      "collect_satellite prop mx times_utc times_datetime True s = Inr (Some e)"
      by auto
    from collect_satellite_Inr[OF s(3)] obtain f where f: "prop s = Some f" by blast
    then show ?thesis
      using s collect_satellite_filtered[of "prop" s f, OF f] by auto
  qed
  show ?thesis
  proof (intro conjI impI allI)
    assume none: "\<forall>s\<in>set satellites. name s = nm \<longrightarrow>
             (\<forall>f. prop s = Some f \<longrightarrow> (\<forall>t\<in>set times_utc. \<not> elevation_in_km (f t) \<le> mx))"
    show "data nm = None"
    proof (rule ccontr)
      assume "data nm \<noteq> None"
      then obtain e where "data nm = Some e" by auto
      from origin[OF this] obtain s f where s: "s \<in> set satellites" "name s = nm"
        "prop s = Some f"
        "altitude_filter mx (unfiltered_entry (map f times_utc) times_datetime) = Inr (Some e)"
        by blast
      from altitude_filter_Some(2)[OF s(4)]
      have "\<exists>t\<in>set times_utc. elevation_in_km (f t) \<le> mx"
        by (auto simp add: unfiltered_entry_def)
      then show False using none s by blast
    qed
  next
    fix e assume "data nm = Some e"
    from origin[OF this] obtain s f where
      s: "altitude_filter mx (unfiltered_entry (map f times_utc) times_datetime) = Inr (Some e)"
      by blast
    let ?u = "unfiltered_entry (map f times_utc) times_datetime"
    have "altitude_km e = filter (\<lambda>a. a \<le> mx) (altitude_km ?u)"
      using altitude_filter_Some(1)[OF s] by (simp add: altitude_km_select_low)
    then show "altitude_km e \<noteq> []"
      using altitude_filter_Some(2)[OF s] by (simp add: filter_empty_conv)
  qed
qed

text \<open>
  In the example run, satellite 59626 stays between 900 and 1332 km and has no entry in
  the filtered result for the threshold 800, while 59625 has one with the altitudes
  500, 500.
\<close>

theorem no_low_sample_no_entry_witness:
  "collect_satellite_data example_propagator 800 example_satellites
      example_times_utc example_times_datetime True = Inr example_filtered_data
   \<and> example_filtered_data ''59626'' = None
   \<and> example_filtered_data ''59625'' \<noteq> None
   \<and> altitude_km (the (example_filtered_data ''59625'')) = [500, 500]"
proof -
  have "\<forall>s\<in>set example_satellites. name s = ''59626'' \<longrightarrow>
      (\<forall>f. example_propagator s = Some f \<longrightarrow>
         (\<forall>t\<in>set example_times_utc. \<not> elevation_in_km (f t) \<le> 800))"
    by (simp add: example_satellites_def example_propagator_def example_track_def
          example_times_utc_def)
  then have "example_filtered_data ''59626'' = None"
    using no_low_sample_no_entry[OF example_filtered, of "''59626''"] by blast
  then show ?thesis
    using example_filtered by (simp add: example_filtered_data_def)
qed

section \<open>Claims about the run\<close>

text \<open>
  Claim C6.  When a run ends with its two results, every unfiltered trajectory has
  the length of the time grid in each of its five sequences and carries the grid as
  its instants, and every filtered trajectory belongs to a satellite that has an
  unfiltered one, of which it is an order-preserving subsequence, sample for sample.
  The two results come from two separate calls of \<open>collect_satellite_data\<close> on the
  same satellites and the same grid.
\<close>

theorem filtered_subsequence_of_unfiltered:
  assumes "main http_get prop cfg start_time = (events, Inr (Plotted filtered unfiltered))"
  shows "\<exists>times_utc times_datetime.
      generate_time_steps start_time (PREDICTION_DAYS cfg) (TIME_STEP_MINUTES cfg)
        = Inr (times_utc, times_datetime)
    \<and> (\<forall>nm u. unfiltered nm = Some u \<longrightarrow>
          length (latitude u) = length times_datetime
        \<and> length (longitude u) = length times_datetime
        \<and> length (elevation_m u) = length times_datetime
        \<and> length (altitude_km u) = length times_datetime
        \<and> times_entry u = times_datetime
        \<and> length (samples u) = length times_datetime)
    \<and> (\<forall>nm e. filtered nm = Some e \<longrightarrow>
          (\<exists>u. unfiltered nm = Some u \<and> aligned e \<and> subseq (samples e) (samples u)))"
proof -
  from main_Plotted[OF assms] obtain times_utc times_datetime where
    g: "generate_time_steps start_time (PREDICTION_DAYS cfg) (TIME_STEP_MINUTES cfg)
        = Inr (times_utc, times_datetime)" by blast
  note ent = main_entries[OF assms g]
  have un: "length (latitude u) = length times_datetime
        \<and> length (longitude u) = length times_datetime
        \<and> length (elevation_m u) = length times_datetime
        \<and> length (altitude_km u) = length times_datetime
        \<and> times_entry u = times_datetime
        \<and> length (samples u) = length times_datetime"
    if "unfiltered nm = Some u" for nm u
  proof -
    have "aligned u" "times_entry u = times_datetime"
      using ent[of nm] that by simp_all
    then show ?thesis
      using length_samples[of u] by (simp add: aligned_def)
  qed
  have fi: "\<exists>u. unfiltered nm = Some u \<and> aligned e \<and> subseq (samples e) (samples u)"
    if "filtered nm = Some e" for nm e
  proof (cases "unfiltered nm")
    case None
    then show ?thesis using ent[of nm] that by simp
  next
    case (Some u)
    then have al: "aligned u"
      and f: "altitude_filter (MAX_ALTITUDE_KM cfg) u = Inr (Some e)"
      using ent[of nm] that by simp_all
    have e: "e = select (low_indices (MAX_ALTITUDE_KM cfg) u) u"
      by (rule altitude_filter_Some(1)[OF f])
    have "samples e = filter (\<lambda>s. sample_altitude s \<le> MAX_ALTITUDE_KM cfg) (samples u)"
      unfolding e by (rule samples_select_low[OF al])
    then have "subseq (samples e) (samples u)"
      by simp
    moreover have "aligned e"
      unfolding e by (rule aligned_select)
    ultimately show ?thesis using Some by simp
  qed
  show ?thesis
    using g un fi by blast
qed

text \<open>
  In the example run, satellite 59625 has an unfiltered trajectory of three samples on
  the grid and a filtered one of two samples (altitudes 500, 500) that is a
  subsequence of it.
\<close>

theorem filtered_subsequence_of_unfiltered_witness:
  "main example_http_get example_propagator example_config example_start
     = (example_messages, Inr (Plotted example_filtered_data example_all_data))
   \<and> (\<exists>u e. example_all_data ''59625'' = Some u
           \<and> example_filtered_data ''59625'' = Some e
           \<and> length (altitude_km u) = 3
           \<and> times_entry u = example_times_datetime
           \<and> altitude_km e = [500, 500]
           \<and> subseq (samples e) (samples u))"
proof -
  from filtered_subsequence_of_unfiltered[OF example_run]
  obtain times_utc times_datetime where
    g: "generate_time_steps example_start (PREDICTION_DAYS example_config)
          (TIME_STEP_MINUTES example_config) = Inr (times_utc, times_datetime)"
    and un: "\<forall>nm u. example_all_data nm = Some u \<longrightarrow>
          length (latitude u) = length times_datetime
        \<and> length (longitude u) = length times_datetime
        \<and> length (elevation_m u) = length times_datetime
        \<and> length (altitude_km u) = length times_datetime
        \<and> times_entry u = times_datetime
        \<and> length (samples u) = length times_datetime"
    and fi: "\<forall>nm e. example_filtered_data nm = Some e \<longrightarrow>
          (\<exists>u. example_all_data nm = Some u \<and> aligned e \<and> subseq (samples e) (samples u))"
    by blast
  have td: "times_datetime = example_times_datetime"
    using g example_grid by simp
  obtain e where e: "example_filtered_data ''59625'' = Some e" "altitude_km e = [500, 500]"
    by (simp add: example_filtered_data_def)
  from fi e(1) obtain u where u: "example_all_data ''59625'' = Some u"
    "subseq (samples e) (samples u)" by blast
  from un u(1) have "length (altitude_km u) = length times_datetime"
    "times_entry u = times_datetime" by simp_all
  then have "length (altitude_km u) = 3" "times_entry u = example_times_datetime"
    unfolding td by (simp_all add: example_times_datetime_def)
  then show ?thesis
    using example_run e u by blast
qed




lemma map_nth_map:
  assumes "\<forall>i\<in>set idx. i < length xs"
  shows "map (\<lambda>i. map g xs ! i) idx = map (\<lambda>i. g (xs ! i)) idx"
  using assms by (intro map_cong) simp_all

lemma sorted_low_indices: "sorted_wrt (<) (low_indices mx e)"
  unfolding low_indices_def by (rule sorted_wrt_filter) (simp add: sorted_wrt_upt)

text \<open>
  Claim C10.  Let the grid come from \<open>generate_time_steps\<close>.  Every entry that
  \<open>collect_satellite_data\<close> stores, with or without the filter, has five sequences of
  one length, and there is one increasing list of grid positions from which all five
  are read: position \<open>i\<close> of the list gives the subpoint of one satellite of that name
  at the \<open>i\<close>-th Skyfield time and the \<open>i\<close>-th datetime.  Without the filter the list
  holds every position of the grid.
\<close>

theorem entries_index_aligned:
  assumes "generate_time_steps start_time days step_minutes = Inr (times_utc, times_datetime)"
    and "collect_satellite_data prop mx satellites times_utc times_datetime flt = Inr data"
    and "data nm = Some e"
  shows "length (latitude e) = length (times_entry e)
       \<and> length (longitude e) = length (times_entry e)
       \<and> length (elevation_m e) = length (times_entry e)
       \<and> length (altitude_km e) = length (times_entry e)
       \<and> (\<exists>s\<in>set satellites. \<exists>f idx.
             name s = nm \<and> prop s = Some f
           \<and> sorted_wrt (<) idx \<and> (\<forall>i\<in>set idx. i < length times_datetime)
           \<and> (\<not> flt \<longrightarrow> idx = [0..<length times_datetime])
           \<and> latitude e = map (\<lambda>i. latitude_degrees (f (times_utc ! i))) idx
           \<and> longitude e = map (\<lambda>i. longitude_degrees (f (times_utc ! i))) idx
           \<and> elevation_m e = map (\<lambda>i. elevation_in_m (f (times_utc ! i))) idx
           \<and> altitude_km e = map (\<lambda>i. elevation_in_km (f (times_utc ! i))) idx
           \<and> times_entry e = map (\<lambda>i. times_datetime ! i) idx)"
proof -
  have len: "length times_datetime = length times_utc"
    by (rule generate_time_steps_lengths[OF assms(1)])
  from collect_loop_origin[OF assms(2)[unfolded collect_satellite_data_def] assms(3)]
  obtain s where s: "s \<in> set satellites" "name s = nm"
    "collect_satellite prop mx times_utc times_datetime flt s = Inr (Some e)"
    by auto
  from collect_satellite_Inr[OF s(3)] obtain f where f: "prop s = Some f" by blast
  let ?u = "unfiltered_entry (map f times_utc) times_datetime"
  have ex: "\<exists>idx. sorted_wrt (<) idx \<and> (\<forall>i\<in>set idx. i < length times_datetime)
           \<and> (\<not> flt \<longrightarrow> idx = [0..<length times_datetime])
           \<and> e = select idx ?u"
  proof (cases flt)
    case True
    then have "altitude_filter mx ?u = Inr (Some e)"
      using s(3) collect_satellite_filtered[of "prop" s f, OF f] by simp
    then have e: "e = select (low_indices mx ?u) ?u"
      by (rule altitude_filter_Some(1))
    have "\<forall>i\<in>set (low_indices mx ?u). i < length times_datetime"
      using length_low_indices_le[of mx ?u] len by (simp add: unfiltered_entry_def)
    then show ?thesis
      using e True sorted_low_indices by blast
  next
    case False
    then have e: "e = ?u"
      using s(3) collect_satellite_unfiltered[of "prop" s f, OF f] by simp
    have al: "aligned ?u"
      using len by (intro aligned_unfiltered_entry) simp
    have "length (altitude_km ?u) = length times_datetime"
      using len by (simp add: unfiltered_entry_def)
    then have "e = select [0..<length times_datetime] ?u"
      using select_all[OF al] e by simp
    then show ?thesis
      using False by (intro exI[of _ "[0..<length times_datetime]"])
        (simp add: sorted_wrt_upt)
  qed
  then obtain idx where idx: "sorted_wrt (<) idx" "\<forall>i\<in>set idx. i < length times_datetime"
    "\<not> flt \<longrightarrow> idx = [0..<length times_datetime]" "e = select idx ?u"
    by blast
  have in_range: "\<forall>i\<in>set idx. i < length times_utc"
    using idx(2) len by simp
  have fields:
    "latitude e = map (\<lambda>i. latitude_degrees (f (times_utc ! i))) idx"
    "longitude e = map (\<lambda>i. longitude_degrees (f (times_utc ! i))) idx"
    "elevation_m e = map (\<lambda>i. elevation_in_m (f (times_utc ! i))) idx"
    "altitude_km e = map (\<lambda>i. elevation_in_km (f (times_utc ! i))) idx"
    "times_entry e = map (\<lambda>i. times_datetime ! i) idx"
    unfolding idx(4)
    using map_nth_map[OF in_range, of "\<lambda>t. latitude_degrees (f t)"]
      map_nth_map[OF in_range, of "\<lambda>t. longitude_degrees (f t)"]
      map_nth_map[OF in_range, of "\<lambda>t. elevation_in_m (f t)"]
      map_nth_map[OF in_range, of "\<lambda>t. elevation_in_km (f t)"]
    by (simp_all add: select_def unfiltered_entry_def o_def)
  have lens: "length (latitude e) = length (times_entry e)"
    "length (longitude e) = length (times_entry e)"
    "length (elevation_m e) = length (times_entry e)"
    "length (altitude_km e) = length (times_entry e)"
    unfolding fields by simp_all
  show ?thesis
    using lens s(1,2) f idx(1-3) fields by blast
qed

text \<open>
  In the example run: the filtered entry of 59625 has two rows, read at one increasing
  list of grid positions from the track of that satellite and the datetimes; the
  unfiltered entry of 59626 has three rows, read at the positions 0, 1, 2.
\<close>

theorem entries_index_aligned_witness:
  "(\<exists>e. example_filtered_data ''59625'' = Some e
       \<and> length (latitude e) = 2 \<and> length (times_entry e) = 2
       \<and> (\<exists>idx. sorted_wrt (<) idx
              \<and> altitude_km e = map (\<lambda>i. elevation_in_km (example_track 500 (example_times_utc ! i))) idx
              \<and> times_entry e = map (\<lambda>i. example_times_datetime ! i) idx))
   \<and> (\<exists>e. example_all_data ''59626'' = Some e
       \<and> length (latitude e) = 3 \<and> length (times_entry e) = 3
       \<and> altitude_km e = map (\<lambda>i. elevation_in_km (example_track 900 (example_times_utc ! i))) [0..<3]
       \<and> times_entry e = map (\<lambda>i. example_times_datetime ! i) [0..<3])"
proof -
  obtain e where e: "example_filtered_data ''59625'' = Some e" "length (times_entry e) = 2"
    by (simp add: example_filtered_data_def)
  from entries_index_aligned[OF example_grid example_filtered e(1)]
  obtain s f idx where a: "length (latitude e) = length (times_entry e)"
    "name s = ''59625''" "example_propagator s = Some f" "sorted_wrt (<) idx"
    "altitude_km e = map (\<lambda>i. elevation_in_km (f (example_times_utc ! i))) idx"
    "times_entry e = map (\<lambda>i. example_times_datetime ! i) idx"
    by blast
  have f: "f = example_track 500"
    using a(2,3) by (simp add: example_propagator_def)
  have 1: "\<exists>e. example_filtered_data ''59625'' = Some e
       \<and> length (latitude e) = 2 \<and> length (times_entry e) = 2
       \<and> (\<exists>idx. sorted_wrt (<) idx
              \<and> altitude_km e = map (\<lambda>i. elevation_in_km (example_track 500 (example_times_utc ! i))) idx
              \<and> times_entry e = map (\<lambda>i. example_times_datetime ! i) idx)"
    using e a(1,4,5,6) unfolding f by auto
  obtain u where u: "example_all_data ''59626'' = Some u" "length (times_entry u) = 3"
    by (simp add: example_all_data_def)
  from entries_index_aligned[OF example_grid example_unfiltered u(1)]
  obtain s' f' idx' where b: "length (latitude u) = length (times_entry u)"
    "name s' = ''59626''" "example_propagator s' = Some f'"
    "\<not> False \<longrightarrow> idx' = [0..<length example_times_datetime]"
    "altitude_km u = map (\<lambda>i. elevation_in_km (f' (example_times_utc ! i))) idx'"
    "times_entry u = map (\<lambda>i. example_times_datetime ! i) idx'"
    by blast
  have f': "f' = example_track 900"
    using b(2,3) by (simp add: example_propagator_def)
  have "length example_times_datetime = 3"
    by (simp add: example_times_datetime_def)
  then have idx': "idx' = [0..<3]"
    using b(4) by simp
  have 2: "\<exists>e. example_all_data ''59626'' = Some e
       \<and> length (latitude e) = 3 \<and> length (times_entry e) = 3
       \<and> altitude_km e = map (\<lambda>i. elevation_in_km (example_track 900 (example_times_utc ! i))) [0..<3]
       \<and> times_entry e = map (\<lambda>i. example_times_datetime ! i) [0..<3]"
    using u b(1,5,6) unfolding f' idx' by auto
  show ?thesis using 1 2 by blast
qed

end
